theory Spec2Isabelle
  imports Main "HOL-Library.Word" "HOL-Library.Char_ord" "HOL-Library.List_Lexorder"
begin

unbundle bit_operations_syntax

section \<open>Go values: byte strings, errors, panics\<close>

text \<open>
  A Go \<open>string\<close> and a Go \<open>[]byte\<close> are both sequences of bytes; an Isabelle
  \<open>char\<close> is one byte, so both are modelled as \<open>string\<close>. Strings compare
  byte-wise lexicographically, as Go's \<open><\<close> on strings does.
\<close>

type_synonym bytes = string

abbreviation NUL :: char where "NUL \<equiv> CHR 0x00"
abbreviation TAB :: char where "TAB \<equiv> CHR 0x09"
abbreviation NL :: char where "NL \<equiv> CHR 0x0A"
abbreviation SP :: char where "SP \<equiv> CHR 0x20"

text \<open>
  The error values the code returns: \<open>fmt.Errorf\<close> with its formatted message, the
  two errors of \<open>encoding/hex\<close>, and the errors handed up from code outside
  \<open>tree.go\<close> (the repository lookup, the object store, the operating system).
\<close>

datatype error =
    Errorf string
  | InvalidByteError char
  | ErrLength
  | External string

text \<open>
  A call returns a value, returns an error, or panics (a Go runtime panic: an index or
  a slice bound out of range, a negative \<open>Repeat\<close> count). The panic is not an
  \<open>error\<close> value: no caller in the package recovers it.
\<close>

datatype 'a result = Ok 'a | Error error | Panic string

subsection \<open>\<open>bytes.IndexByte\<close> and slice expressions\<close>

fun IndexByte :: "bytes \<Rightarrow> char \<Rightarrow> int" where
  "IndexByte [] c = - 1"
| "IndexByte (b # bs) c =
     (if b = c then 0
      else (let i = IndexByte bs c in if i < 0 then - 1 else i + 1))"

text \<open>
  \<open>s[lo:hi]\<close> on a slice. Go checks \<open>0 \<le> lo \<le> hi \<le> cap(s)\<close> (the capacity, not
  the length) and panics otherwise; \<open>arr\<close> is the backing array from the first
  element of \<open>s\<close> up to its capacity.
\<close>

definition slice :: "bytes \<Rightarrow> int \<Rightarrow> int \<Rightarrow> bytes result" where
  "slice arr lo hi =
     (if 0 \<le> lo \<and> lo \<le> hi \<and> hi \<le> int (length arr)
      then Ok (take (nat (hi - lo)) (drop (nat lo) arr))
      else Panic ''slice bounds out of range'')"

subsection \<open>\<open>encoding/hex\<close>\<close>

definition hextable :: string where
  "hextable = ''0123456789abcdef''"

definition EncodeToString :: "bytes \<Rightarrow> string" where
  "EncodeToString src =
     concat (map (\<lambda>b. [hextable ! (of_char b div 16), hextable ! (of_char b mod 16)]) src)"

text \<open>\<open>fromHexChar\<close>: digits, and the letters a-f in either case.\<close>

definition fromHexChar :: "char \<Rightarrow> nat option" where
  "fromHexChar c =
     (let n = (of_char c :: nat) in
      if 48 \<le> n \<and> n \<le> 57 then Some (n - 48)
      else if 97 \<le> n \<and> n \<le> 102 then Some (n - 97 + 10)
      else if 65 \<le> n \<and> n \<le> 70 then Some (n - 65 + 10)
      else None)"

text \<open>
  \<open>hex.DecodeString\<close>: pairs of hex digits from the left; the first byte that is not
  a hex digit is an \<open>InvalidByteError\<close>, an odd length with valid digits is
  \<open>ErrLength\<close>.
\<close>

fun DecodeString :: "string \<Rightarrow> bytes result" where
  "DecodeString [] = Ok []"
| "DecodeString [p] =
     (case fromHexChar p of
        None \<Rightarrow> Error (InvalidByteError p)
      | Some a \<Rightarrow> Error ErrLength)"
| "DecodeString (p # q # rest) =
     (case fromHexChar p of
        None \<Rightarrow> Error (InvalidByteError p)
      | Some a \<Rightarrow>
          (case fromHexChar q of
             None \<Rightarrow> Error (InvalidByteError q)
           | Some b \<Rightarrow>
               (case DecodeString rest of
                  Ok bs \<Rightarrow> Ok (char_of (a * 16 + b) # bs)
                | Error e \<Rightarrow> Error e
                | Panic m \<Rightarrow> Panic m)))"

subsection \<open>\<open>strings.Split\<close>, \<open>strings.Fields\<close>, \<open>strings.TrimLeft\<close>\<close>

text \<open>\<open>strings.Split(s, "\n")\<close>: the pieces between the newlines, empty ones kept.\<close>

fun Split :: "string \<Rightarrow> char \<Rightarrow> string list" where
  "Split [] sep = [[]]"
| "Split (c # cs) sep =
     (if c = sep then [] # Split cs sep
      else (case Split cs sep of
              [] \<Rightarrow> [[c]]
            | piece # pieces \<Rightarrow> (c # piece) # pieces))"

text \<open>
  \<open>strings.Fields\<close> splits around runs of white space as \<open>unicode.IsSpace\<close> defines
  it on the UTF-8 decoding of the string: the six ASCII characters, U+0085, U+00A0,
  U+1680, U+2000..U+200A, U+2028, U+2029, U+202F, U+205F and U+3000. A lead byte of a
  multi-byte encoding is never a continuation byte of a rune decoded before it, so a
  white-space rune stands wherever its encoding stands in the bytes; every other byte
  (of a valid rune or not) belongs to a field. \<open>spaceWidth s\<close> is the number of bytes
  of the white-space rune at the head of \<open>s\<close>, or 0.
\<close>

definition asciiSpace :: "char \<Rightarrow> bool" where
  "asciiSpace c = (c = TAB \<or> c = NL \<or> c = CHR 0x0B \<or> c = CHR 0x0C \<or> c = CHR 0x0D \<or> c = SP)"

definition space2 :: "char \<Rightarrow> char \<Rightarrow> bool" where
  "space2 a b = (a = CHR 0xC2 \<and> (b = CHR 0x85 \<or> b = CHR 0xA0))"

definition space3 :: "char \<Rightarrow> char \<Rightarrow> char \<Rightarrow> bool" where
  "space3 a b c =
     ((a = CHR 0xE1 \<and> b = CHR 0x9A \<and> c = CHR 0x80)
      \<or> (a = CHR 0xE2 \<and> b = CHR 0x80 \<and>
           ((128 \<le> (of_char c :: nat) \<and> (of_char c :: nat) \<le> 138)
            \<or> c = CHR 0xA8 \<or> c = CHR 0xA9 \<or> c = CHR 0xAF))
      \<or> (a = CHR 0xE2 \<and> b = CHR 0x81 \<and> c = CHR 0x9F)
      \<or> (a = CHR 0xE3 \<and> b = CHR 0x80 \<and> c = CHR 0x80))"

fun spaceWidth :: "string \<Rightarrow> nat" where
  "spaceWidth [] = 0"
| "spaceWidth [a] = (if asciiSpace a then 1 else 0)"
| "spaceWidth [a, b] = (if asciiSpace a then 1 else if space2 a b then 2 else 0)"
| "spaceWidth (a # b # c # rest) =
     (if asciiSpace a then 1 else if space2 a b then 2 else if space3 a b c then 3 else 0)"

text \<open>
  The scan of \<open>Fields\<close>: \<open>skip\<close> counts the bytes still to pass of the white-space
  rune being read, \<open>cur\<close> is the field being collected.
\<close>

fun fieldsFrom :: "nat \<Rightarrow> string \<Rightarrow> string \<Rightarrow> string list" where
  "fieldsFrom skip cur [] = (if cur = [] then [] else [cur])"
| "fieldsFrom skip cur (c # cs) =
     (if 0 < skip then fieldsFrom (skip - 1) cur cs
      else if 0 < spaceWidth (c # cs)
        then (if cur = [] then [] else [cur]) @ fieldsFrom (spaceWidth (c # cs) - 1) [] cs
        else fieldsFrom 0 (cur @ [c]) cs)"

definition Fields :: "string \<Rightarrow> string list" where
  "Fields s = fieldsFrom 0 [] s"

text \<open>\<open>strings.TrimLeft(s, "0")\<close>.\<close>

definition TrimLeft :: "string \<Rightarrow> char \<Rightarrow> string" where
  "TrimLeft s c = dropWhile (\<lambda>x. x = c) s"

section \<open>The tree object (\<open>tree.go\<close>)\<close>

text \<open>
  \<open>GitObject\<close> is declared outside \<open>tree.go\<close>; the code reads its fields
  \<open>ObjType\<close> and \<open>ObjData\<close>. \<open>ObjData\<close> is a Go slice: \<open>ObjSpare\<close> holds the bytes
  of its backing array between its length and its capacity, which a slice expression
  can reach.
\<close>

record GitObject =
  ObjType :: string
  ObjData :: bytes
  ObjSpare :: bytes

record TreeEntry =
  mode :: string
  hash :: string
  objType :: string
  name :: string

record GitTree =
  Obj :: GitObject
  Entries :: "TreeEntry list"

text \<open>
  The repository handle. \<open>GetRepo(".")\<close> and \<open>repo.ObjectParse\<close> are outside
  \<open>tree.go\<close>: the functions below take the result of \<open>GetRepo(".")\<close> as the
  parameter \<open>getRepo\<close>, and a repository is its \<open>ObjectParse\<close>, any function from
  a 40-character address to an object or a failure.
\<close>

record Repo =
  ObjectParse :: "string \<Rightarrow> GitObject result"

text \<open>
  The loop of \<open>ParseData\<close>: one entry per iteration from \<open>objData[start:]\<close>,
  appended to \<open>entries\<close>. It stops at the first failure with the entries read so far.
\<close>

function parseEntries ::
  "Repo \<Rightarrow> bytes \<Rightarrow> bytes \<Rightarrow> nat \<Rightarrow> TreeEntry list \<Rightarrow> unit result \<times> TreeEntry list" where
  "parseEntries repo objData spare start entries =
     (if start < length objData then
        (let data = drop start objData;
             arr = drop start (objData @ spare);
             spaceInd = IndexByte data SP
         in case slice arr 0 spaceInd of
              Panic m \<Rightarrow> (Panic m, entries)
            | Error e \<Rightarrow> (Error e, entries)
            | Ok entryMode \<Rightarrow>
                if length entryMode \<noteq> 5 \<and> length entryMode \<noteq> 6
                then (Error (Errorf (''Malformed object: bad mode '' @ entryMode)), entries)
                else
                  (let nameInd = IndexByte data NUL
                   in case slice arr (spaceInd + 1) nameInd of
                        Panic m \<Rightarrow> (Panic m, entries)
                      | Error e \<Rightarrow> (Error e, entries)
                      | Ok entryName \<Rightarrow>
                          (case slice arr (nameInd + 1) (nameInd + 21) of
                             Panic m \<Rightarrow> (Panic m, entries)
                           | Error e \<Rightarrow> (Error e, entries)
                           | Ok rawHash \<Rightarrow>
                               (let entryHash = EncodeToString rawHash
                                in case ObjectParse repo entryHash of
                                     Panic m \<Rightarrow> (Panic m, entries)
                                   | Error e \<Rightarrow> (Error e, entries)
                                   | Ok obj \<Rightarrow>
                                       parseEntries repo objData spare
                                         (start + nat (nameInd + 21))
                                         (entries @
                                            [\<lparr>mode = entryMode, hash = entryHash,
                                              objType = ObjType obj, name = entryName\<rparr>])))))
      else (Ok (), entries))"
  by pat_completeness auto

lemma IndexByte_ge: "- 1 \<le> IndexByte bs c"
  by (induction bs) (auto simp: Let_def)

lemma IndexByte_step: "0 < nat (IndexByte bs c + 21)"
  using IndexByte_ge [of bs c] by simp

lemma parse_progress:
  "start < n \<Longrightarrow> n - (start + nat (IndexByte bs c + 21)) < n - start"
  using IndexByte_step [of bs c] by arith

termination parseEntries
  by (relation "measure (\<lambda>(repo, objData, spare, start, entries). length objData - start)")
     (auto intro: parse_progress)

declare parseEntries.simps [simp del]

text \<open>
  \<open>ParseData\<close> mutates \<open>tree.Entries\<close> and returns an error or nil: the model
  returns the outcome and the tree as the call leaves it. \<open>sort.Slice\<close> orders the
  entries by name; it is not a stable sort, so the order it gives entries of equal
  names is not fixed by Go. The model sorts stably.
\<close>

definition ParseData :: "Repo result \<Rightarrow> GitTree \<Rightarrow> unit result \<times> GitTree" where
  "ParseData getRepo tree =
     (case getRepo of
        Error e \<Rightarrow> (Error e, tree)
      | Panic m \<Rightarrow> (Panic m, tree)
      | Ok repo \<Rightarrow>
          (case parseEntries repo (ObjData (Obj tree)) (ObjSpare (Obj tree)) 0 (Entries tree) of
             (Ok u, entries) \<Rightarrow> (Ok (), tree\<lparr>Entries := sort_key name entries\<rparr>)
           | (Error e, entries) \<Rightarrow> (Error e, tree\<lparr>Entries := entries\<rparr>)
           | (Panic m, entries) \<Rightarrow> (Panic m, tree\<lparr>Entries := entries\<rparr>)))"

definition NewTree :: "Repo result \<Rightarrow> GitObject \<Rightarrow> GitTree result" where
  "NewTree getRepo obj =
     (if ObjType obj \<noteq> ''tree''
      then Error (Errorf (''Malformed object: bad type '' @ ObjType obj))
      else (case ParseData getRepo \<lparr>Obj = obj, Entries = []\<rparr> of
              (Ok u, tree) \<Rightarrow> Ok tree
            | (Error e, tree) \<Rightarrow> Error e
            | (Panic m, tree) \<Rightarrow> Panic m))"

text \<open>\<open>props[i]\<close>: an index out of range panics.\<close>

definition index :: "'a list \<Rightarrow> nat \<Rightarrow> 'a result" where
  "index xs i = (if i < length xs then Ok (xs ! i) else Panic ''index out of range'')"

text \<open>
  The loop of \<open>NewTreeFromInput\<close> over the lines of the input, appending to
  \<open>data\<close>. \<open>props[3]\<close> is read before \<open>props[2]\<close> is decoded.
\<close>

fun appendEntries :: "string list \<Rightarrow> bytes \<Rightarrow> bytes result" where
  "appendEntries [] data = Ok data"
| "appendEntries (entry # entries) data =
     (if length entry = 0 then appendEntries entries data
      else
        (let props = Fields entry
         in case index props 0 of
              Panic m \<Rightarrow> Panic m
            | Error e \<Rightarrow> Error e
            | Ok props0 \<Rightarrow>
                (let mode = TrimLeft props0 (CHR ''0'');
                     data1 = data @ mode @ [SP]
                 in case index props 3 of
                      Panic m \<Rightarrow> Panic m
                    | Error e \<Rightarrow> Error e
                    | Ok props3 \<Rightarrow>
                        (let data2 = data1 @ props3 @ [NUL]
                         in case index props 2 of
                              Panic m \<Rightarrow> Panic m
                            | Error e \<Rightarrow> Error e
                            | Ok props2 \<Rightarrow>
                                (case DecodeString props2 of
                                   Panic m \<Rightarrow> Panic m
                                 | Error e \<Rightarrow> Error e
                                 | Ok byteHash \<Rightarrow> appendEntries entries (data2 @ byteHash))))))"

text \<open>
  Modelled from the spec: \<open>NewObject\<close> (object.go is not among the sources). A
  RawObject is a kind and a payload; the payload keeps the slice it is given, of
  which \<open>spare\<close> is the capacity beyond the length.
\<close>

definition NewObject :: "string \<Rightarrow> bytes \<Rightarrow> bytes \<Rightarrow> GitObject" where
  "NewObject kind data spare = \<lparr>ObjType = kind, ObjData = data, ObjSpare = spare\<rparr>"

text \<open>
  \<open>spare\<close> is the capacity \<open>append\<close> left beyond the length of \<open>data\<close>; Go's
  growth policy decides it, so it is a parameter.
\<close>

definition NewTreeFromInput :: "Repo result \<Rightarrow> bytes \<Rightarrow> string \<Rightarrow> GitTree result" where
  "NewTreeFromInput getRepo spare input =
     (case appendEntries (Split input NL) [] of
        Panic m \<Rightarrow> Panic m
      | Error e \<Rightarrow> Error e
      | Ok data \<Rightarrow> NewTree getRepo (NewObject ''tree'' data spare))"

definition Type :: "GitTree \<Rightarrow> string" where
  "Type tree = ''tree''"

definition DataSize :: "GitTree \<Rightarrow> nat" where
  "DataSize tree = length (ObjData (Obj tree))"

text \<open>\<open>strings.Repeat\<close> panics on a negative count.\<close>

definition Repeat :: "string \<Rightarrow> int \<Rightarrow> string result" where
  "Repeat s count =
     (if count < 0 then Panic ''strings: negative Repeat count''
      else Ok (concat (replicate (nat count) s)))"

fun printEntries :: "TreeEntry list \<Rightarrow> string \<Rightarrow> string result" where
  "printEntries [] b = Ok b"
| "printEntries (entry # entries) b =
     (case Repeat ''0'' (6 - int (length (mode entry))) of
        Panic m \<Rightarrow> Panic m
      | Error e \<Rightarrow> Error e
      | Ok zeros \<Rightarrow>
          (let entryMode = zeros @ mode entry
           in printEntries entries
                (b @ entryMode @ [SP] @ objType entry @ [SP] @ hash entry @ [TAB]
                   @ name entry @ [NL])))"

definition Print :: "GitTree \<Rightarrow> string result" where
  "Print tree = printEntries (Entries tree) []"

section \<open>The artifacts of the test (\<open>setupTestArtifacts\<close>)\<close>

definition testData :: string where
  "testData = ''Hello World'' @ [NL]"

definition blobHash :: string where
  "blobHash = ''557db03de997c86a4a028e1ebd3a1ceb225be238''"

definition testBlob :: GitObject where
  "testBlob = \<lparr>ObjType = ''blob'', ObjData = testData, ObjSpare = []\<rparr>"

definition treeInput :: string where
  "treeInput = ''100644 blob '' @ blobHash @ [TAB] @ ''testfile'' @ [NL]"

text \<open>A store that holds the test's blob and nothing else.\<close>

definition blobRepo :: Repo where
  "blobRepo =
     \<lparr>ObjectParse = (\<lambda>h. if h = blobHash then Ok testBlob
                          else Error (External ''object not found''))\<rparr>"

section \<open>Kind check of \<open>NewTree\<close>\<close>

lemma ParseData_Obj: "Obj (snd (ParseData getRepo tree)) = Obj tree"
  by (simp add: ParseData_def split: result.splits prod.splits)

lemma NewTree_Ok_Obj:
  assumes "NewTree getRepo obj = Ok t"
  shows "Obj t = obj \<and> ObjType obj = ''tree''"
proof -
  from assms have ty: "ObjType obj = ''tree''"
    by (auto simp: NewTree_def split: if_splits)
  with assms have "t = snd (ParseData getRepo \<lparr>Obj = obj, Entries = []\<rparr>)"
    by (auto simp: NewTree_def split: prod.splits result.splits)
  then have "Obj t = obj"
    by (simp add: ParseData_Obj)
  with ty show ?thesis by simp
qed

text \<open>
  C10. \<open>NewTree\<close> on an object whose type is not \<open>"tree"\<close> returns the error
  \<open>"Malformed object: bad type <type>"\<close> and no tree, whatever the repository lookup
  and the payload are: the data is not parsed. Every tree \<open>NewTree\<close> returns wraps
  the object it was given, and that object's type is \<open>"tree"\<close>. On a tree-typed
  object the parsing step is reached: a failing repository lookup is returned.
\<close>

theorem NewTree_kind_check:
  "(ObjType obj \<noteq> ''tree'' \<longrightarrow>
      NewTree getRepo obj = Error (Errorf (''Malformed object: bad type '' @ ObjType obj)))
   \<and> (\<forall>t. NewTree getRepo obj = Ok t \<longrightarrow> Obj t = obj \<and> ObjType obj = ''tree'')
   \<and> (ObjType obj = ''tree'' \<longrightarrow> NewTree (Error e) obj = Error e)"
proof (intro conjI allI impI)
  assume "ObjType obj \<noteq> ''tree''"
  then show "NewTree getRepo obj = Error (Errorf (''Malformed object: bad type '' @ ObjType obj))"
    by (simp add: NewTree_def)
next
  fix t assume "NewTree getRepo obj = Ok t"
  then show "Obj t = obj" and "ObjType obj = ''tree''"
    using NewTree_Ok_Obj by blast+
next
  assume "ObjType obj = ''tree''"
  then show "NewTree (Error e) obj = Error e"
    by (simp add: NewTree_def ParseData_def)
qed

theorem NewTree_kind_check_witness:
  "ObjType testBlob \<noteq> ''tree''
   \<and> NewTree (Ok blobRepo) testBlob = Error (Errorf ''Malformed object: bad type blob'')
   \<and> NewTree (Ok blobRepo) (NewObject ''tree'' [] []) =
       Ok \<lparr>Obj = NewObject ''tree'' [] [], Entries = []\<rparr>
   \<and> Obj \<lparr>Obj = NewObject ''tree'' [] [], Entries = []\<rparr> = NewObject ''tree'' [] []
   \<and> ObjType (NewObject ''tree'' [] []) = ''tree''
   \<and> NewTree (Error (External ''not a git repository'')) (NewObject ''tree'' [] []) =
       Error (External ''not a git repository'')"
proof -
  have ok: "NewTree (Ok blobRepo) (NewObject ''tree'' [] []) =
      Ok \<lparr>Obj = NewObject ''tree'' [] [], Entries = []\<rparr>"
    by (simp add: NewTree_def NewObject_def ParseData_def parseEntries.simps)
  have ty: "ObjType testBlob \<noteq> ''tree''"
    by (simp add: testBlob_def)
  from NewTree_kind_check [of testBlob "Ok blobRepo"] ty
  have "NewTree (Ok blobRepo) testBlob = Error (Errorf ''Malformed object: bad type blob'')"
    by (simp add: testBlob_def)
  moreover from NewTree_kind_check [of "NewObject ''tree'' [] []" "Ok blobRepo" "External ''not a git repository''"] ok
  have "Obj \<lparr>Obj = NewObject ''tree'' [] [], Entries = []\<rparr> = NewObject ''tree'' [] []
        \<and> ObjType (NewObject ''tree'' [] []) = ''tree''
        \<and> NewTree (Error (External ''not a git repository'')) (NewObject ''tree'' [] []) =
            Error (External ''not a git repository'')"
    by (simp add: NewObject_def)
  ultimately show ?thesis using ok ty by simp
qed

section \<open>Payloads \<open>ParseData\<close> does not check\<close>

text \<open>
  C3. A tree payload with no space: \<open>bytes.IndexByte\<close> returns -1 and the slice
  expression \<open>data[0:spaceInd]\<close> panics before the mode is checked, whatever the
  store holds and whatever the capacity of the payload is. No error is returned.
\<close>

theorem ParseData_panics_without_space:
  "ParseData (Ok repo) \<lparr>Obj = \<lparr>ObjType = ''tree'', ObjData = ''abc'', ObjSpare = spare\<rparr>, Entries = []\<rparr>
     = (Panic ''slice bounds out of range'',
        \<lparr>Obj = \<lparr>ObjType = ''tree'', ObjData = ''abc'', ObjSpare = spare\<rparr>, Entries = []\<rparr>)
   \<and> NewTree (Ok repo) \<lparr>ObjType = ''tree'', ObjData = ''abc'', ObjSpare = spare\<rparr>
     = Panic ''slice bounds out of range''"
  by (simp add: NewTree_def ParseData_def parseEntries.simps slice_def)

section \<open>Round trip of a tree through its text specification\<close>

text \<open>
  \<open>noSpace s\<close>: no white-space rune (as \<open>strings.Fields\<close> reads it) stands anywhere
  in \<open>s\<close>.
\<close>

fun noSpace :: "string \<Rightarrow> bool" where
  "noSpace [] = True"
| "noSpace (c # cs) = (spaceWidth (c # cs) = 0 \<and> noSpace cs)"

lemma spaceWidth_ascii: "asciiSpace a \<Longrightarrow> spaceWidth (a # xs) = 1"
  by (cases xs rule: spaceWidth.cases) (auto)

lemma asciiSpace_not_space2: "asciiSpace s \<Longrightarrow> \<not> space2 a s"
  by (auto simp: asciiSpace_def space2_def)

lemma asciiSpace_not_space3_mid: "asciiSpace s \<Longrightarrow> \<not> space3 a s c"
  by (auto simp: asciiSpace_def space3_def)

lemma asciiSpace_not_space3_last: "asciiSpace s \<Longrightarrow> \<not> space3 a b s"
  by (auto simp: asciiSpace_def space3_def)

lemma spaceWidth_before_sep:
  assumes "spaceWidth (c # w) = 0" and "asciiSpace s"
  shows "spaceWidth (c # w @ s # rest) = 0"
proof (cases w)
  case Nil
  with assms show ?thesis
    by (cases rest) (auto simp: asciiSpace_not_space2 asciiSpace_not_space3_mid split: if_splits)
next
  case (Cons d w')
  show ?thesis
  proof (cases w')
    case Nil
    with Cons assms show ?thesis
      by (auto simp: asciiSpace_not_space3_last split: if_splits)
  next
    case (Cons e w'')
    with \<open>w = d # w'\<close> assms show ?thesis by (auto split: if_splits)
  qed
qed

lemma fieldsFrom_word_sep:
  "noSpace w \<Longrightarrow> asciiSpace s \<Longrightarrow>
   fieldsFrom 0 cur (w @ s # rest) = (if cur @ w = [] then [] else [cur @ w]) @ fieldsFrom 0 [] rest"
proof (induction w arbitrary: cur)
  case Nil
  then show ?case by (simp add: spaceWidth_ascii)
next
  case (Cons c w)
  then have "spaceWidth (c # w @ s # rest) = 0"
    using spaceWidth_before_sep by simp
  with Cons show ?case by simp
qed

lemma fieldsFrom_word_end:
  "noSpace w \<Longrightarrow> fieldsFrom 0 cur w = (if cur @ w = [] then [] else [cur @ w])"
  by (induction w arbitrary: cur) auto

lemma Fields_line:
  assumes "noSpace m" "noSpace k" "noSpace h" "noSpace n"
    and "m \<noteq> []" "k \<noteq> []" "h \<noteq> []" "n \<noteq> []"
  shows "Fields (m @ SP # k @ SP # h @ TAB # n) = [m, k, h, n]"
proof -
  have sp: "asciiSpace SP" and tab: "asciiSpace TAB" by (simp_all add: asciiSpace_def)
  show ?thesis
    unfolding Fields_def
    using assms by (simp add: fieldsFrom_word_sep [OF _ sp] fieldsFrom_word_sep [OF _ tab] fieldsFrom_word_end)
qed


lemma noSpace_not_ascii: "noSpace w \<Longrightarrow> c \<in> set w \<Longrightarrow> \<not> asciiSpace c"
proof (induction w)
  case Nil then show ?case by simp
next
  case (Cons a w)
  show ?case
  proof (cases "c = a")
    case True
    from Cons.prems have "spaceWidth (a # w) = 0" by simp
    then have "\<not> asciiSpace a" using spaceWidth_ascii [of a w] by auto
    with True show ?thesis by simp
  next
    case False
    with Cons show ?thesis by simp
  qed
qed

lemma Split_line:
  "sep \<notin> set l \<Longrightarrow> Split (l @ sep # rest) sep = l # Split rest sep"
  by (induction l) (auto split: list.splits)

text \<open>
  The text specification of a tree: one line \<open>"<mode> <kind> <hash>\t<name>\n"\<close> per
  entry. An entry of the specification is written as a \<open>TreeEntry\<close> whose \<open>mode\<close>
  is the mode as the line has it.
\<close>

definition entryLine :: "TreeEntry \<Rightarrow> string" where
  "entryLine e = mode e @ [SP] @ objType e @ [SP] @ hash e @ [TAB] @ name e"

definition treeText :: "TreeEntry list \<Rightarrow> string" where
  "treeText es = concat (map (\<lambda>e. entryLine e @ [NL]) es)"

lemma Split_treeText:
  "\<forall>e \<in> set es. NL \<notin> set (entryLine e) \<Longrightarrow> Split (treeText es) NL = map entryLine es @ [[]]"
  by (induction es) (simp_all add: treeText_def Split_line)

text \<open>
  Lower-case hex strings, and the bytes \<open>hex.DecodeString\<close> gives for a string of
  hex digits of even length.
\<close>

definition lowerHex :: "string \<Rightarrow> bool" where
  "lowerHex h = (\<forall>c \<in> set h. c \<in> set hextable)"

fun hexBytes :: "string \<Rightarrow> bytes" where
  "hexBytes (p # q # rest) = char_of (the (fromHexChar p) * 16 + the (fromHexChar q)) # hexBytes rest"
| "hexBytes _ = []"

lemma fromHexChar_lower:
  "c \<in> set hextable \<Longrightarrow> \<exists>v. fromHexChar c = Some v \<and> v < 16 \<and> hextable ! v = c"
  by (auto simp: hextable_def fromHexChar_def)

lemma hex_pair:
  assumes "a < 16" "b < 16"
  shows "(of_char (char_of (a * 16 + b :: nat)) :: nat) div 16 = a"
    and "(of_char (char_of (a * 16 + b :: nat)) :: nat) mod 16 = b"
proof -
  have "a * 16 + b < 256" using assms by simp
  then have "(of_char (char_of (a * 16 + b)) :: nat) = a * 16 + b"
    by (simp add: take_bit_eq_mod)
  with assms show "(of_char (char_of (a * 16 + b :: nat)) :: nat) div 16 = a"
    and "(of_char (char_of (a * 16 + b :: nat)) :: nat) mod 16 = b" by simp_all
qed

lemma DecodeString_lower:
  "lowerHex h \<Longrightarrow> even (length h) \<Longrightarrow>
   DecodeString h = Ok (hexBytes h) \<and> length (hexBytes h) = length h div 2
   \<and> EncodeToString (hexBytes h) = h"
proof (induction h rule: DecodeString.induct)
  case 1
  then show ?case by (simp add: EncodeToString_def)
next
  case (2 p)
  then show ?case by simp
next
  case (3 p q rest)
  from "3.prems" have p: "p \<in> set hextable" and q: "q \<in> set hextable"
    and rest: "lowerHex rest" "even (length rest)"
    by (simp_all add: lowerHex_def)
  from fromHexChar_lower [OF p] obtain a where a: "fromHexChar p = Some a" "a < 16" "hextable ! a = p"
    by blast
  from fromHexChar_lower [OF q] obtain b where b: "fromHexChar q = Some b" "b < 16" "hextable ! b = q"
    by blast
  from "3.IH" [OF a(1) b(1) rest]
  have ih: "DecodeString rest = Ok (hexBytes rest)" "length (hexBytes rest) = length rest div 2"
    "EncodeToString (hexBytes rest) = rest" by simp_all
  show ?case
    using a b ih hex_pair [OF a(2) b(2)] by (simp add: EncodeToString_def)
qed


lemma IndexByte_found:
  "c \<notin> set a \<Longrightarrow> IndexByte (a @ c # rest) c = int (length a)"
  by (induction a) (auto simp: Let_def)

lemma slice_prefix: "slice (a @ rest) 0 (int (length a)) = Ok a"
  by (simp add: slice_def)

lemma slice_mid:
  "lo = int (length a) \<Longrightarrow> hi = int (length a) + int (length b) \<Longrightarrow>
   slice (a @ b @ rest) lo hi = Ok b"
  by (simp add: slice_def)

text \<open>The binary encoding of one entry.\<close>

definition encodeEntry :: "TreeEntry \<Rightarrow> bytes" where
  "encodeEntry e = mode e @ [SP] @ name e @ [NUL] @ hexBytes (hash e)"

definition kindOf :: "Repo \<Rightarrow> string \<Rightarrow> string option" where
  "kindOf repo h = (case ObjectParse repo h of Ok obj \<Rightarrow> Some (ObjType obj) | Error e \<Rightarrow> None | Panic m \<Rightarrow> None)"

lemma parseEntries_step:
  assumes m: "length (mode e) = 5 \<or> length (mode e) = 6" "SP \<notin> set (mode e)" "NUL \<notin> set (mode e)"
    and n: "NUL \<notin> set (name e)"
    and h: "lowerHex (hash e)" "length (hash e) = 40"
    and k: "kindOf repo (hash e) = Some (objType e)"
  shows "parseEntries repo (pre @ encodeEntry e @ rest) spare (length pre) acc =
         parseEntries repo (pre @ encodeEntry e @ rest) spare (length (pre @ encodeEntry e)) (acc @ [e])"
proof -
  let ?m = "mode e" and ?n = "name e" and ?hb = "hexBytes (hash e)"
  from h have dec: "length ?hb = 20" "EncodeToString ?hb = hash e"
    using DecodeString_lower [of "hash e"] by simp_all
  from k obtain obj where obj: "ObjectParse repo (hash e) = Ok obj" "ObjType obj = objType e"
    by (auto simp: kindOf_def split: result.splits)
  have data: "drop (length pre) (pre @ encodeEntry e @ rest) = ?m @ SP # ?n @ NUL # ?hb @ rest"
    by (simp add: encodeEntry_def)
  have arr: "drop (length pre) ((pre @ encodeEntry e @ rest) @ spare)
               = ?m @ SP # ?n @ NUL # ?hb @ rest @ spare"
    by (simp add: encodeEntry_def)
  have sp: "IndexByte (?m @ SP # ?n @ NUL # ?hb @ rest) SP = int (length ?m)"
    using m(2) by (rule IndexByte_found)
  have "NUL \<notin> set (?m @ SP # ?n)" using m(3) n by simp
  from IndexByte_found [OF this, of "?hb @ rest"]
  have nul: "IndexByte (?m @ SP # ?n @ NUL # ?hb @ rest) NUL = int (length ?m) + 1 + int (length ?n)"
    by simp
  have s1: "slice (?m @ SP # ?n @ NUL # ?hb @ rest @ spare) 0 (int (length ?m)) = Ok ?m"
    using slice_prefix [of ?m] by simp
  have s2: "slice (?m @ SP # ?n @ NUL # ?hb @ rest @ spare) (int (length ?m) + 1)
              (int (length ?m) + 1 + int (length ?n)) = Ok ?n"
    using slice_mid [of "int (length ?m) + 1" "?m @ [SP]" "int (length ?m) + 1 + int (length ?n)" ?n
                        "NUL # ?hb @ rest @ spare"] by simp
  have s3: "slice (?m @ SP # ?n @ NUL # ?hb @ rest @ spare) (int (length ?m) + 1 + int (length ?n) + 1)
              (int (length ?m) + 1 + int (length ?n) + 21) = Ok ?hb"
    using slice_mid [of "int (length ?m) + 1 + int (length ?n) + 1" "?m @ SP # ?n @ [NUL]"
                        "int (length ?m) + 1 + int (length ?n) + 21" ?hb "rest @ spare"] dec(1)
    by simp
  have len: "length pre + nat (int (length ?m) + 1 + int (length ?n) + 21) = length (pre @ encodeEntry e)"
    using dec(1) by (simp add: encodeEntry_def)
  have lt: "length pre < length (pre @ encodeEntry e @ rest)"
    by (simp add: encodeEntry_def)
  have e: "\<lparr>mode = ?m, hash = hash e, objType = objType e, name = ?n\<rparr> = e"
    by simp
  show ?thesis
    apply (subst parseEntries.simps)
    apply (simp only: lt if_True data arr Let_def sp nul s1 s2 s3 result.case dec obj e len)
    using m(1) apply auto
    done
qed


text \<open>
  An entry as the binary payload holds it and the store backs it: a mode of 5 or 6
  bytes without space or NUL, a name without NUL, a 40-digit lower-case address that
  the store resolves to an object of the entry's type.
\<close>

definition storedOK :: "Repo \<Rightarrow> TreeEntry \<Rightarrow> bool" where
  "storedOK repo e =
     ((length (mode e) = 5 \<or> length (mode e) = 6) \<and> SP \<notin> set (mode e) \<and> NUL \<notin> set (mode e)
      \<and> NUL \<notin> set (name e) \<and> lowerHex (hash e) \<and> length (hash e) = 40
      \<and> kindOf repo (hash e) = Some (objType e))"

lemma parseEntries_all:
  "\<forall>e \<in> set es. storedOK repo e \<Longrightarrow>
   parseEntries repo (pre @ concat (map encodeEntry es)) spare (length pre) acc = (Ok (), acc @ es)"
proof (induction es arbitrary: pre acc)
  case Nil
  then show ?case by (simp add: parseEntries.simps)
next
  case (Cons e es)
  from Cons.prems have e: "storedOK repo e" and es: "\<forall>e \<in> set es. storedOK repo e" by simp_all
  have "parseEntries repo (pre @ concat (map encodeEntry (e # es))) spare (length pre) acc
        = parseEntries repo (pre @ encodeEntry e @ concat (map encodeEntry es)) spare
            (length (pre @ encodeEntry e)) (acc @ [e])"
    using e parseEntries_step [of e repo pre "concat (map encodeEntry es)" spare acc]
    by (simp add: storedOK_def)
  also have "\<dots> = (Ok (), (acc @ [e]) @ es)"
    using Cons.IH [OF es, of "pre @ encodeEntry e" "acc @ [e]"] by simp
  finally show ?case by simp
qed

lemma sort_key_sorted: "sorted (map f xs) \<Longrightarrow> sort_key f xs = xs"
  by (rule sort_key_id_if_sorted)

text \<open>Stripping the zeros of a mode and padding it again gives the mode back.\<close>

lemma TrimLeft_pad:
  "concat (replicate (length m - length (TrimLeft m c)) [c]) @ TrimLeft m c = m"
proof -
  have "length m - length (dropWhile (\<lambda>x. x = c) m) = length (takeWhile (\<lambda>x. x = c) m)"
    by (metis add_diff_cancel_right' length_append takeWhile_dropWhile_id)
  moreover have "concat (replicate (length (takeWhile (\<lambda>x. x = c) m)) [c]) = takeWhile (\<lambda>x. x = c) m"
    by (induction m) auto
  ultimately show ?thesis by (simp add: TrimLeft_def)
qed

definition stripMode :: "TreeEntry \<Rightarrow> TreeEntry" where
  "stripMode e = e\<lparr>mode := TrimLeft (mode e) (CHR ''0'')\<rparr>"

lemma printEntries_stripped:
  "\<forall>e \<in> set es. length (mode e) = 6 \<Longrightarrow>
   printEntries (map stripMode es) b = Ok (b @ treeText es)"
proof (induction es arbitrary: b)
  case Nil
  then show ?case by (simp add: treeText_def)
next
  case (Cons e es)
  then have len: "length (mode e) = 6" by simp
  have le: "length (TrimLeft (mode e) (CHR ''0'')) \<le> 6"
    using len by (metis TrimLeft_def length_dropWhile_le)
  have "concat (replicate (nat (6 - int (length (TrimLeft (mode e) (CHR ''0''))))) ''0'') @ TrimLeft (mode e) (CHR ''0'') = mode e"
    using TrimLeft_pad [of "mode e" "CHR ''0''"] len le
    by (simp add: nat_diff_distrib')
  with Cons le show ?case
    by (simp add: Repeat_def stripMode_def treeText_def entryLine_def)
qed



lemma plain_char:
  "c \<in> set hextable \<Longrightarrow>
   \<not> asciiSpace c \<and> c \<noteq> CHR 0xC2 \<and> c \<noteq> CHR 0xE1 \<and> c \<noteq> CHR 0xE2 \<and> c \<noteq> CHR 0xE3
   \<and> c \<noteq> NUL \<and> c \<noteq> SP"
  unfolding hextable_def asciiSpace_def by auto

lemma spaceWidth_no_lead:
  assumes "\<not> asciiSpace c" "c \<noteq> CHR 0xC2" "c \<noteq> CHR 0xE1" "c \<noteq> CHR 0xE2" "c \<noteq> CHR 0xE3"
  shows "spaceWidth (c # cs) = 0"
proof -
  have "\<not> space2 c b" for b using assms by (simp add: space2_def)
  moreover have "\<not> space3 c b d" for b d using assms by (simp add: space3_def)
  ultimately show ?thesis using assms(1)
    by (cases "c # cs" rule: spaceWidth.cases) simp_all
qed

lemma spaceWidth_plain:
  "c \<in> set hextable \<Longrightarrow> spaceWidth (c # cs) = 0"
  using plain_char [of c] spaceWidth_no_lead [of c cs] by blast

lemma lowerHex_noSpace: "lowerHex s \<Longrightarrow> noSpace s"
  by (induction s) (simp_all add: lowerHex_def spaceWidth_plain)

lemma lowerHex_no_NUL_SP: "lowerHex s \<Longrightarrow> NUL \<notin> set s \<and> SP \<notin> set s"
  using plain_char unfolding lowerHex_def by blast

text \<open>
  A line of the text specification that the round trip reproduces: a mode of six
  digits with at most one leading zero; a kind that is the type of the object the
  store holds at the hash, a non-empty word; a hash of 40 lower-case hex digits;
  a non-empty name without white space and without NUL.
\<close>

definition modeOK :: "string \<Rightarrow> bool" where
  "modeOK m = (length m = 6 \<and> (\<forall>c \<in> set m. c \<in> set ''0123456789'') \<and> take 2 m \<noteq> ''00'')"

definition lineOK :: "Repo \<Rightarrow> TreeEntry \<Rightarrow> bool" where
  "lineOK repo e =
     (modeOK (mode e)
      \<and> objType e \<noteq> [] \<and> noSpace (objType e) \<and> kindOf repo (hash e) = Some (objType e)
      \<and> lowerHex (hash e) \<and> length (hash e) = 40
      \<and> name e \<noteq> [] \<and> noSpace (name e) \<and> NUL \<notin> set (name e))"

lemma digit_hextable: "c \<in> set ''0123456789'' \<Longrightarrow> c \<in> set hextable"
  unfolding hextable_def by auto

lemma modeOK_lowerHex: "modeOK m \<Longrightarrow> lowerHex m"
  unfolding modeOK_def lowerHex_def using digit_hextable by blast

lemma modeOK_TrimLeft_length:
  assumes "modeOK m"
  shows "length (TrimLeft m (CHR ''0'')) = 5 \<or> length (TrimLeft m (CHR ''0'')) = 6"
proof -
  from assms have len: "length m = 6" and two: "take 2 m \<noteq> ''00''"
    by (simp_all add: modeOK_def)
  from len obtain a m1 where m: "m = a # m1" and l1: "length m1 = 5"
    by (cases m) auto
  from l1 obtain b r where m1: "m1 = b # r" and lr: "length r = 4"
    by (cases m1) auto
  from two m m1 have "a \<noteq> CHR ''0'' \<or> b \<noteq> CHR ''0''" by auto
  then show ?thesis
    using m m1 lr by (auto simp: TrimLeft_def)
qed

lemma TrimLeft_subset: "set (TrimLeft m c) \<subseteq> set m"
  by (simp add: TrimLeft_def set_dropWhileD subsetI)

lemma lineOK_storedOK:
  assumes "lineOK repo e"
  shows "storedOK repo (stripMode e)"
proof -
  let ?m = "TrimLeft (mode e) (CHR ''0'')"
  from assms have mo: "modeOK (mode e)" by (simp add: lineOK_def)
  have len: "length ?m = 5 \<or> length ?m = 6"
    using mo by (rule modeOK_TrimLeft_length)
  have "NUL \<notin> set (mode e) \<and> SP \<notin> set (mode e)"
    using mo modeOK_lowerHex lowerHex_no_NUL_SP by blast
  then have no: "SP \<notin> set ?m" "NUL \<notin> set ?m"
    using TrimLeft_subset [of "mode e" "CHR ''0''"] by blast+
  have flds: "mode (stripMode e) = ?m" "name (stripMode e) = name e"
    "hash (stripMode e) = hash e" "objType (stripMode e) = objType e"
    by (simp_all add: stripMode_def)
  from assms have other: "NUL \<notin> set (name e)" "lowerHex (hash e)" "length (hash e) = 40"
    "kindOf repo (hash e) = Some (objType e)"
    by (simp_all add: lineOK_def)
  show ?thesis
    unfolding storedOK_def flds using len no other by blast
qed

lemma lineOK_Fields:
  assumes "lineOK repo e"
  shows "Fields (entryLine e) = [mode e, objType e, hash e, name e]"
proof -
  from assms have "noSpace (mode e)" "mode e \<noteq> []" "noSpace (hash e)" "hash e \<noteq> []"
    using lowerHex_noSpace modeOK_lowerHex by (auto simp: lineOK_def modeOK_def)
  with assms show ?thesis
    using Fields_line [of "mode e" "objType e" "hash e" "name e"]
    by (simp add: lineOK_def entryLine_def)
qed

lemma lineOK_no_NL:
  assumes "lineOK repo e"
  shows "NL \<notin> set (entryLine e)"
proof -
  have nl: "asciiSpace NL" by (simp add: asciiSpace_def)
  from assms have "noSpace (mode e)" "noSpace (hash e)" "noSpace (objType e)" "noSpace (name e)"
    using lowerHex_noSpace modeOK_lowerHex by (auto simp: lineOK_def)
  then have "NL \<notin> set (mode e)" "NL \<notin> set (hash e)" "NL \<notin> set (objType e)" "NL \<notin> set (name e)"
    using noSpace_not_ascii nl by blast+
  then show ?thesis by (simp add: entryLine_def)
qed

lemma appendEntries_lines:
  "\<forall>e \<in> set es. lineOK repo e \<Longrightarrow>
   appendEntries (map entryLine es @ [[]]) data =
     Ok (data @ concat (map encodeEntry (map stripMode es)))"
proof (induction es arbitrary: data)
  case Nil
  then show ?case by simp
next
  case (Cons e es)
  from Cons.prems have e: "lineOK repo e" and es: "\<forall>e \<in> set es. lineOK repo e" by simp_all
  have ne: "length (entryLine e) \<noteq> 0" by (simp add: entryLine_def)
  from e have dec: "DecodeString (hash e) = Ok (hexBytes (hash e))"
    using DecodeString_lower [of "hash e"] by (simp add: lineOK_def)
  show ?case
    using ne dec lineOK_Fields [OF e] Cons.IH [OF es]
    by (simp add: index_def Let_def encodeEntry_def stripMode_def)
qed

text \<open>Building a tree from a text and printing what was built.\<close>

definition printBuilt :: "Repo result \<Rightarrow> bytes \<Rightarrow> string \<Rightarrow> string result" where
  "printBuilt getRepo spare input =
     (case NewTreeFromInput getRepo spare input of
        Ok tree \<Rightarrow> Print tree
      | Error e \<Rightarrow> Error e
      | Panic m \<Rightarrow> Panic m)"

definition Entries_of_result :: "GitTree result \<Rightarrow> TreeEntry list option" where
  "Entries_of_result r = (case r of Ok tree \<Rightarrow> Some (Entries tree) | Error e \<Rightarrow> None | Panic m \<Rightarrow> None)"

text \<open>
  C2, as amended. Let the text specification consist of lines
  \<open>"<mode> <kind> <hash>\t<name>\n"\<close> whose names are strictly ascending, non-empty and
  free of white space and NUL, whose modes are six digits with at most one leading
  zero, whose hashes are 40 lower-case hex digits that the store resolves, and whose
  kind is the type of the stored object; let \<open>GetRepo\<close> succeed. Then
  \<open>NewTreeFromInput\<close> returns the tree of these entries (modes stripped of their
  leading zero), and \<open>Print\<close> of that tree is the text, byte for byte. Names are
  strictly ascending, so the result does not depend on how \<open>sort.Slice\<close> orders
  equal names.
\<close>

theorem tree_text_round_trip:
  assumes lines: "\<forall>e \<in> set es. lineOK repo e"
    and asc: "sorted_wrt (<) (map name es)"
  shows "NewTreeFromInput (Ok repo) spare (treeText es) =
           Ok \<lparr>Obj = NewObject ''tree'' (concat (map encodeEntry (map stripMode es))) spare,
               Entries = map stripMode es\<rparr>
         \<and> printBuilt (Ok repo) spare (treeText es) = Ok (treeText es)"
proof -
  let ?data = "concat (map encodeEntry (map stripMode es))"
  have split: "Split (treeText es) NL = map entryLine es @ [[]]"
    using lines lineOK_no_NL by (intro Split_treeText) blast
  have build: "appendEntries (Split (treeText es) NL) [] = Ok ?data"
    using appendEntries_lines [OF lines, of "[]"] split by simp
  have stored: "\<forall>e \<in> set (map stripMode es). storedOK repo e"
    using lines lineOK_storedOK by auto
  have parse: "parseEntries repo ?data spare 0 [] = (Ok (), map stripMode es)"
    using parseEntries_all [OF stored, of "[]" spare "[]"] by simp
  have names: "map name (map stripMode es) = map name es"
    by (simp add: stripMode_def)
  have "sorted (map name es)"
    using asc by (rule sorted_wrt_mono_rel [rotated]) simp
  then have "sorted (map name (map stripMode es))"
    by (simp only: names)
  then have sort: "sort_key name (map stripMode es) = map stripMode es"
    by (rule sort_key_id_if_sorted)
  have tree: "NewTreeFromInput (Ok repo) spare (treeText es) =
           Ok \<lparr>Obj = NewObject ''tree'' ?data spare, Entries = map stripMode es\<rparr>"
    using build parse sort
    by (simp add: NewTreeFromInput_def NewTree_def ParseData_def NewObject_def)
  have len: "\<forall>e \<in> set es. length (mode e) = 6"
    using lines by (simp add: lineOK_def modeOK_def)
  have "Print \<lparr>Obj = NewObject ''tree'' ?data spare, Entries = map stripMode es\<rparr> = Ok (treeText es)"
    using printEntries_stripped [OF len, of "[]"] by (simp add: Print_def)
  with tree show ?thesis by (simp add: printBuilt_def)
qed

text \<open>A specification of two lines over the store of the test.\<close>

definition twoEntries :: "TreeEntry list" where
  "twoEntries =
     [\<lparr>mode = ''100644'', hash = blobHash, objType = ''blob'', name = ''testfile''\<rparr>,
      \<lparr>mode = ''040755'', hash = blobHash, objType = ''blob'', name = ''zz.txt''\<rparr>]"

lemma kindOf_blobHash: "kindOf blobRepo blobHash = Some ''blob''"
  by (simp add: kindOf_def blobRepo_def testBlob_def)

lemma blobHash_lowerHex: "lowerHex blobHash \<and> length blobHash = 40"
  by (simp add: lowerHex_def blobHash_def hextable_def)

lemma twoEntries_lineOK: "\<forall>e \<in> set twoEntries. lineOK blobRepo e"
  by (simp add: twoEntries_def lineOK_def modeOK_def kindOf_blobHash blobHash_lowerHex
      asciiSpace_def space2_def space3_def)

lemma twoEntries_ascending: "sorted_wrt (<) (map name twoEntries)"
  by (simp add: twoEntries_def)

theorem tree_text_round_trip_witness:
  "list_all (lineOK blobRepo) twoEntries
   \<and> sorted_wrt (<) (map name twoEntries)
   \<and> treeText twoEntries =
       ''100644 blob 557db03de997c86a4a028e1ebd3a1ceb225be238'' @ [TAB] @ ''testfile'' @ [NL]
       @ ''040755 blob 557db03de997c86a4a028e1ebd3a1ceb225be238'' @ [TAB] @ ''zz.txt'' @ [NL]
   \<and> Entries_of_result (NewTreeFromInput (Ok blobRepo) [] (treeText twoEntries)) =
       Some (map stripMode twoEntries)
   \<and> printBuilt (Ok blobRepo) [] (treeText twoEntries) = Ok (treeText twoEntries)"
proof -
  have spec_text: "treeText twoEntries =
       ''100644 blob 557db03de997c86a4a028e1ebd3a1ceb225be238'' @ [TAB] @ ''testfile'' @ [NL]
       @ ''040755 blob 557db03de997c86a4a028e1ebd3a1ceb225be238'' @ [TAB] @ ''zz.txt'' @ [NL]"
    by (simp add: twoEntries_def treeText_def entryLine_def blobHash_def)
  have all: "list_all (lineOK blobRepo) twoEntries"
    using twoEntries_lineOK by (simp add: list_all_iff)
  from tree_text_round_trip [OF twoEntries_lineOK twoEntries_ascending, of "[]"]
  have "Entries_of_result (NewTreeFromInput (Ok blobRepo) [] (treeText twoEntries)) =
          Some (map stripMode twoEntries)
        \<and> printBuilt (Ok blobRepo) [] (treeText twoEntries) = Ok (treeText twoEntries)"
    by (simp add: Entries_of_result_def)
  with spec_text all twoEntries_ascending show ?thesis by blast
qed

text \<open>
  The claim as the specification states it fails: the kind written on a line is never
  read. Over the store of the test, the line that calls the blob a tree is in order,
  has a six-digit mode and a hash the store holds; the tree is built, and its print
  says \<open>blob\<close>.
\<close>

theorem tree_text_round_trip_counterexample:
  "ObjectParse blobRepo blobHash = Ok testBlob
   \<and> printBuilt (Ok blobRepo) []
       (''100644 tree 557db03de997c86a4a028e1ebd3a1ceb225be238'' @ [TAB] @ ''testfile'' @ [NL])
     = Ok (''100644 blob 557db03de997c86a4a028e1ebd3a1ceb225be238'' @ [TAB] @ ''testfile'' @ [NL])
   \<and> printBuilt (Ok blobRepo) []
       (''100644 tree 557db03de997c86a4a028e1ebd3a1ceb225be238'' @ [TAB] @ ''testfile'' @ [NL])
     \<noteq> Ok (''100644 tree 557db03de997c86a4a028e1ebd3a1ceb225be238'' @ [TAB] @ ''testfile'' @ [NL])"
  by (simp add: printBuilt_def NewTreeFromInput_def blobHash_def Fields_def index_def TrimLeft_def
      asciiSpace_def space2_def space3_def fromHexChar_def NewTree_def NewObject_def ParseData_def
      parseEntries.simps slice_def EncodeToString_def hextable_def blobRepo_def testBlob_def
      Print_def Repeat_def Let_def)

text \<open>
  Two more inputs inside the claim's words and outside the amended one. A name with a
  space is cut at the space, since the line is split with \<open>strings.Fields\<close>; a
  six-digit mode with more than one leading zero is stripped to fewer than five
  characters, which \<open>ParseData\<close> rejects.
\<close>

lemma name_with_space_is_cut:
  "printBuilt (Ok blobRepo) []
       (''100644 blob 557db03de997c86a4a028e1ebd3a1ceb225be238'' @ [TAB] @ ''my file'' @ [NL])
     = Ok (''100644 blob 557db03de997c86a4a028e1ebd3a1ceb225be238'' @ [TAB] @ ''my'' @ [NL])"
  by (simp add: printBuilt_def NewTreeFromInput_def blobHash_def Fields_def index_def TrimLeft_def
      asciiSpace_def space2_def space3_def fromHexChar_def NewTree_def NewObject_def ParseData_def
      parseEntries.simps slice_def EncodeToString_def hextable_def blobRepo_def testBlob_def
      Print_def Repeat_def Let_def)

lemma mode_000644_is_rejected:
  "printBuilt (Ok blobRepo) []
       (''000644 blob 557db03de997c86a4a028e1ebd3a1ceb225be238'' @ [TAB] @ ''testfile'' @ [NL])
     = Error (Errorf ''Malformed object: bad mode 644'')"
  by (simp add: printBuilt_def NewTreeFromInput_def blobHash_def Fields_def index_def TrimLeft_def
      asciiSpace_def space2_def space3_def fromHexChar_def NewTree_def NewObject_def ParseData_def
      parseEntries.simps slice_def EncodeToString_def hextable_def blobRepo_def testBlob_def
      Print_def Repeat_def Let_def)

end
